theory Spec2Isabelle
  imports Complex_Main "HOL-Library.Word" "HOL-Library.Sublist" "HOL-Library.Log_Nat"
begin

section \<open>Capture Framer (src/lib/audio-worklets.ts, AudioProcessingWorklet)\<close>

text \<open>
  The worklet keeps an \<open>Int16Array(2048)\<close> and a write cursor; the messages it posts
  to its port are collected in \<open>posted\<close>, oldest first. A finite float32 sample is a
  rational number, and its product with \<open>32768 = 2^15\<close> is exact in the double
  arithmetic of the source, so samples are modelled as \<open>rat\<close>.
\<close>

record framer =
  buffer :: "16 word list"
  bufferWriteIndex :: nat
  posted :: "16 word list list"

definition newFramer :: framer where
  "newFramer = \<lparr>buffer = replicate 2048 0, bufferWriteIndex = 0, posted = []\<rparr>"

text \<open>
  Storing a number into an \<open>Int16Array\<close> truncates it towards zero and keeps the low
  16 bits, read as two's complement.
\<close>

definition truncate_rat :: "rat \<Rightarrow> int" where
  "truncate_rat q = (if 0 \<le> q then \<lfloor>q\<rfloor> else \<lceil>q\<rceil>)"

definition toInt16 :: "rat \<Rightarrow> 16 word" where
  "toInt16 q = word_of_int (truncate_rat q)"

definition int16Value :: "rat \<Rightarrow> rat" where
  "int16Value v = v * 32768"

text \<open>\<open>ArrayBuffer.byteLength\<close> of a slice of an \<open>Int16Array\<close>: two bytes per sample.\<close>

definition byteLength :: "16 word list \<Rightarrow> nat" where
  "byteLength chunk = 2 * length chunk"

definition sendAndClearBuffer :: "framer \<Rightarrow> framer" where
  "sendAndClearBuffer f =
     f\<lparr>posted := posted f @ [take (bufferWriteIndex f) (buffer f)],
       bufferWriteIndex := 0\<rparr>"

text \<open>One iteration of the \<open>for\<close> loop of \<open>processChunk\<close>.\<close>

definition storeSample :: "rat \<Rightarrow> framer \<Rightarrow> framer" where
  "storeSample v f =
     (let f1 = f\<lparr>buffer := (buffer f)[bufferWriteIndex f := toInt16 (int16Value v)],
                 bufferWriteIndex := bufferWriteIndex f + 1\<rparr>
      in if bufferWriteIndex f1 \<ge> length (buffer f1) then sendAndClearBuffer f1 else f1)"

definition processChunk :: "rat list \<Rightarrow> framer \<Rightarrow> framer" where
  "processChunk float32Array f =
     (let f1 = fold storeSample float32Array f
      in if bufferWriteIndex f1 \<ge> length (buffer f1) then sendAndClearBuffer f1 else f1)"

text \<open>
  \<open>process(inputs)\<close>: the argument here is \<open>inputs[0]\<close>, the list of channels of the
  first input; with no channel the call does nothing.
\<close>

definition process :: "rat list list \<Rightarrow> framer \<Rightarrow> framer" where
  "process input0 f = (case input0 of [] \<Rightarrow> f | channel0 # _ \<Rightarrow> processChunk channel0 f)"

definition capture :: "rat list list list \<Rightarrow> framer" where
  "capture calls = fold process calls newFramer"

definition samplesOf :: "rat list list \<Rightarrow> nat" where
  "samplesOf input0 = (case input0 of [] \<Rightarrow> 0 | channel0 # _ \<Rightarrow> length channel0)"

definition totalSamples :: "rat list list list \<Rightarrow> nat" where
  "totalSamples calls = sum_list (map samplesOf calls)"

definition framer_ok :: "framer \<Rightarrow> bool" where
  "framer_ok f = (length (buffer f) = 2048 \<and> bufferWriteIndex f < 2048)"

section \<open>Strings as the task matcher uses them (moveTaskByText)\<close>

text \<open>
  Texts are \<open>string\<close>s of characters with codes below 256. Among these,
  \<open>toLowerCase\<close> changes the capitals \<open>A\<close> to \<open>Z\<close> (65 to 90) and the accented
  capitals 192 to 222 other than the multiplication sign 215, each to the character 32
  places further; the white space of \<open>trim\<close> and of the regular expression
  \<open>\s\<close> is tab, line feed, vertical tab, form feed, carriage return, space and the
  no-break space.
\<close>

definition toLowerCase_char :: "char \<Rightarrow> char" where
  "toLowerCase_char c =
     (let n = (of_char c :: nat)
      in if (65 \<le> n \<and> n \<le> 90) \<or> (192 \<le> n \<and> n \<le> 222 \<and> n \<noteq> 215)
         then char_of (n + 32) else c)"

definition toLowerCase :: "string \<Rightarrow> string" where
  "toLowerCase s = map toLowerCase_char s"

definition isWhiteSpace :: "char \<Rightarrow> bool" where
  "isWhiteSpace c = ((of_char c :: nat) \<in> {9, 10, 11, 12, 13, 32, 160})"

definition trim :: "string \<Rightarrow> string" where
  "trim s = rev (dropWhile isWhiteSpace (rev (dropWhile isWhiteSpace s)))"

text \<open>
  \<open>s.split(/\s+/)\<close>: the pieces between maximal runs of white space. The flag tells
  whether the previous character was white space; \<open>acc\<close> is the current piece, reversed.
  The empty string splits into one empty piece.
\<close>

fun split_ws_aux :: "bool \<Rightarrow> string \<Rightarrow> string \<Rightarrow> string list" where
  "split_ws_aux inSep acc [] = [rev acc]"
| "split_ws_aux inSep acc (c # cs) =
     (if isWhiteSpace c
      then (if inSep then split_ws_aux True acc cs else rev acc # split_ws_aux True [] cs)
      else split_ws_aux False (c # acc) cs)"

definition split_ws :: "string \<Rightarrow> string list" where
  "split_ws s = split_ws_aux False [] s"

text \<open>\<open>s.includes(sub)\<close>: \<open>sub\<close> occurs in \<open>s\<close> at some position.\<close>

fun str_includes :: "string \<Rightarrow> string \<Rightarrow> bool" where
  "str_includes [] sub = (sub = [])"
| "str_includes (c # cs) sub = (prefix sub (c # cs) \<or> str_includes cs sub)"

section \<open>Double arithmetic of the scores\<close>

text \<open>
  The scores are JavaScript numbers, that is binary64 values. A finite binary64 value
  is a rational \<open>m * 2^e\<close> with \<open>\<bar>m\<bar> < 2^53\<close>, and every arithmetic operation
  returns the exact result rounded to the nearest such value, a tie going to the even
  \<open>m\<close>. \<open>fl\<close> is that rounding. The exponent is not bounded here: the quotients
  rounded below are quotients of array lengths, times 60, plus 10, far from overflow
  and from the subnormal range.
\<close>

definition pow2 :: "int \<Rightarrow> rat" where
  "pow2 e = (if 0 \<le> e then 2 ^ nat e else 1 / 2 ^ nat (- e))"

definition roundHalfEven :: "rat \<Rightarrow> int" where
  "roundHalfEven q =
     (let f = \<lfloor>q\<rfloor>; r = q - of_int f
      in if r < 1 / 2 then f else if 1 / 2 < r then f + 1
         else if even f then f else f + 1)"

text \<open>The \<open>e\<close> with \<open>2^e \<le> \<bar>q\<bar> < 2^(e+1)\<close>, for \<open>q\<close> other than 0.\<close>

definition exponentOf :: "rat \<Rightarrow> int" where
  "exponentOf q =
     (let a = fst (quotient_of \<bar>q\<bar>); b = snd (quotient_of \<bar>q\<bar>);
          d = bitlen a - bitlen b
      in if pow2 d \<le> \<bar>q\<bar> then d else d - 1)"

definition fl :: "rat \<Rightarrow> rat" where
  "fl q =
     (if q = 0 then 0
      else (let u = pow2 (exponentOf q - 52) in of_int (roundHalfEven (q / u)) * u))"

section \<open>Board state (WhiteboardData) and the move_task operation\<close>

datatype elementType = Sticky | FlowNode | Mermaid | Embed

text \<open>
  A board element: identifier, variant tag and position, then the two fields that
  \<open>moveTaskByText\<close> reads or writes through \<open>(el as any)\<close>: \<open>text\<close> and \<open>color\<close>,
  absent (\<open>None\<close>) on variants that do not carry them. Coordinates are rational
  numbers; the comparisons and the differences taken of them are exact.
\<close>

record element =
  el_id :: string
  el_type :: elementType
  el_x :: rat
  el_y :: rat
  el_text :: "string option"
  el_color :: "string option"

record whiteboardData =
  elements :: "element list"

datatype column = Todo | Inprogress | Done

text \<open>\<open>getCurrentColumn\<close>; the result \<open>"other"\<close> of the source is \<open>None\<close>.\<close>

definition getCurrentColumn :: "element \<Rightarrow> column option" where
  "getCurrentColumn task =
     (if el_x task \<ge> 60 \<and> el_x task \<le> 380 then Some Todo
      else if el_x task \<ge> 420 \<and> el_x task \<le> 740 then Some Inprogress
      else if el_x task \<ge> 780 \<and> el_x task \<le> 1100 then Some Done
      else None)"

definition kanbanColumns :: "column \<Rightarrow> rat" where
  "kanbanColumns c = (case c of Todo \<Rightarrow> 100 | Inprogress \<Rightarrow> 460 | Done \<Rightarrow> 820)"

definition generateElementPosition :: "nat \<Rightarrow> column \<Rightarrow> rat \<times> rat" where
  "generateElementPosition index c =
     (let startY = 180; spacingY = 90 in (kanbanColumns c, startY + of_nat index * spacingY))"

record candidate =
  task :: element
  score :: rat
  currentColumn :: "column option"

definition allStickyTasks :: "whiteboardData \<Rightarrow> element list" where
  "allStickyTasks currentData =
     filter (\<lambda>el. el_type el = Sticky \<and> el_y el < 650) (elements currentData)"

definition searchWordsOf :: "string \<Rightarrow> string list" where
  "searchWordsOf searchTextLower = filter (\<lambda>word. length word > 2) (split_ws searchTextLower)"

text \<open>
  The score of one candidate before the column bonus, from the two lower-cased and
  trimmed texts. The division and the multiplication by 60 are each rounded.
\<close>

definition textScore :: "string \<Rightarrow> string \<Rightarrow> rat" where
  "textScore searchTextLower taskTextLower =
     (let searchWords = searchWordsOf searchTextLower;
          taskWords = split_ws taskTextLower
      in if taskTextLower = searchTextLower then 100
         else if str_includes taskTextLower searchTextLower then 80
         else if str_includes searchTextLower taskTextLower then 70
         else (let matchingWords =
                     filter (\<lambda>searchWord.
                        list_ex (\<lambda>taskWord. str_includes taskWord searchWord
                                            \<or> str_includes searchWord taskWord) taskWords)
                       searchWords
               in if length matchingWords > 0
                  then fl (fl (of_nat (length matchingWords)
                                 / of_nat (max (length searchWords) (length taskWords))) * 60)
                  else 0))"

text \<open>
  The callback of \<open>allStickyTasks.map\<close>: text score, then the bonus of 10, a rounded
  addition.
\<close>

definition scoreCandidate :: "string \<Rightarrow> column \<Rightarrow> element \<Rightarrow> candidate" where
  "scoreCandidate taskText targetColumn el =
     (let searchTextLower = trim (toLowerCase taskText);
          taskTextLower = (case el_text el of None \<Rightarrow> [] | Some t \<Rightarrow> trim (toLowerCase t));
          score0 = textScore searchTextLower taskTextLower;
          cur = getCurrentColumn el;
          score1 = (if cur \<noteq> Some targetColumn then fl (score0 + 10) else score0)
      in \<lparr>task = el, score = score1, currentColumn = cur\<rparr>)"

text \<open>
  \<open>candidatesWithScores\<close> after \<open>.filter(score > 20)\<close> and the in-place
  \<open>.sort((a, b) => b.score - a.score)\<close>. The difference of two binary64 values has
  the sign of their exact difference, so the comparator orders by the values of the
  scores. \<open>Array.prototype.sort\<close> is stable, as is \<open>sort_key\<close>; descending order
  is ascending order of the negated score.
\<close>

definition candidatesWithScores :: "whiteboardData \<Rightarrow> string \<Rightarrow> column \<Rightarrow> candidate list" where
  "candidatesWithScores currentData taskText targetColumn =
     sort_key (\<lambda>c. - score c)
       (filter (\<lambda>c. score c > 20)
          (map (scoreCandidate taskText targetColumn) (allStickyTasks currentData)))"

definition bestCandidate :: "whiteboardData \<Rightarrow> string \<Rightarrow> column \<Rightarrow> candidate option" where
  "bestCandidate currentData taskText targetColumn =
     (case candidatesWithScores currentData taskText targetColumn of
        [] \<Rightarrow> None | c # _ \<Rightarrow> Some c)"

definition newColorOf :: "column \<Rightarrow> string" where
  "newColorOf targetColumn =
     (if targetColumn = Todo then ''yellow''
      else if targetColumn = Inprogress then ''orange'' else ''green'')"

text \<open>
  The elements counted for the new row: every element other than the moved one whose
  \<open>x\<close> is less than 50 away from the target \<open>x\<close> and whose \<open>y\<close> is in \<open>[180, 650)\<close>.
\<close>

definition tasksInTargetColumn :: "whiteboardData \<Rightarrow> element \<Rightarrow> rat \<Rightarrow> element list" where
  "tasksInTargetColumn currentData taskToMove targetX =
     filter (\<lambda>el. el_id el \<noteq> el_id taskToMove \<and> \<bar>el_x el - targetX\<bar> < 50
                \<and> el_y el \<ge> 180 \<and> el_y el < 650)
       (elements currentData)"

definition updateTask :: "element \<Rightarrow> rat \<Rightarrow> rat \<Rightarrow> string \<Rightarrow> element \<Rightarrow> element" where
  "updateTask taskToMove targetX newY newColor el =
     (if el_id el = el_id taskToMove
      then el\<lparr>el_x := targetX, el_y := newY, el_color := Some newColor\<rparr>
      else el)"

text \<open>
  \<open>moveTaskByText\<close> returns either the very object it was given or a fresh one, and its
  caller tells the two apart by reference (\<open>moveResult !== currentData\<close>).
\<close>

datatype moveResult = SameData | NewData whiteboardData

definition moveTaskByText ::
  "whiteboardData \<Rightarrow> string \<Rightarrow> column \<Rightarrow> string \<Rightarrow> moveResult" where
  "moveTaskByText currentData taskText targetColumn reasoning =
     (case candidatesWithScores currentData taskText targetColumn of
        [] \<Rightarrow> SameData
      | best # _ \<Rightarrow>
          if currentColumn best = Some targetColumn then SameData
          else
            (let taskToMove = task best;
                 targetX = fst (generateElementPosition 0 targetColumn);
                 newY = 180 + of_nat (length (tasksInTargetColumn currentData taskToMove targetX)) * 90;
                 newColor = newColorOf targetColumn;
                 updatedElements =
                   map (updateTask taskToMove targetX newY newColor) (elements currentData)
             in NewData (currentData\<lparr>elements := updatedElements\<rparr>)))"

text \<open>The snapshot a caller holds after the call.\<close>

definition snapshotAfter :: "whiteboardData \<Rightarrow> moveResult \<Rightarrow> whiteboardData" where
  "snapshotAfter currentData r = (case r of SameData \<Rightarrow> currentData | NewData d \<Rightarrow> d)"


subsection \<open>Sample boards\<close>

definition c8_first :: element where
  "c8_first = \<lparr>el_id = ''task-1'', el_type = Sticky, el_x = 100, el_y = 180,
     el_text = Some ''Integrate payment gateway'', el_color = Some ''yellow''\<rparr>"

definition c8_second :: element where
  "c8_second = \<lparr>el_id = ''task-2'', el_type = Sticky, el_x = 460, el_y = 180,
     el_text = Some ''Write unit tests'', el_color = Some ''orange''\<rparr>"

definition c8_board :: whiteboardData where
  "c8_board = \<lparr>elements = [c8_first, c8_second]\<rparr>"

subsection \<open>The scoring function in the specification's words\<close>

text \<open>
  The specification tokenises both texts into words of more than two characters.
  \<open>spec_textScore\<close> follows that wording; \<open>code_textScore\<close> differs in one place only:
  the candidate's words are all its white-space separated pieces. Containment is
  \<open>sublist\<close>, the existence of a position at which the one text occurs in the other.
  Both formulas are evaluated in double arithmetic, operation by operation. (Where both
  word lists of the specification's formula are empty the quotient is \<open>0/0\<close>, which
  is 0 here; either way the candidate is dropped.)
\<close>

definition spec_words :: "string \<Rightarrow> string list" where
  "spec_words s = filter (\<lambda>w. length w > 2) (split_ws s)"

definition wordsMatch :: "string \<Rightarrow> string \<Rightarrow> bool" where
  "wordsMatch w v = (sublist w v \<or> sublist v w)"

definition spec_textScore :: "string \<Rightarrow> string \<Rightarrow> rat" where
  "spec_textScore search cand =
     (if cand = search then 100
      else if sublist search cand then 80
      else if sublist cand search then 70
      else fl (fl (of_nat (length (filter (\<lambda>w. list_ex (wordsMatch w) (spec_words cand))
                                     (spec_words search)))
                   / of_nat (max (length (spec_words search)) (length (spec_words cand)))) * 60))"

definition code_textScore :: "string \<Rightarrow> string \<Rightarrow> rat" where
  "code_textScore search cand =
     (if cand = search then 100
      else if sublist search cand then 80
      else if sublist cand search then 70
      else fl (fl (of_nat (length (filter (\<lambda>w. list_ex (wordsMatch w) (split_ws cand))
                                     (spec_words search)))
                   / of_nat (max (length (spec_words search)) (length (split_ws cand)))) * 60))"

definition normalised :: "string \<Rightarrow> string" where
  "normalised s = trim (toLowerCase s)"

definition textOf :: "element \<Rightarrow> string" where
  "textOf el = (case el_text el of None \<Rightarrow> [] | Some t \<Rightarrow> t)"

definition withBonus :: "column \<Rightarrow> element \<Rightarrow> rat \<Rightarrow> rat" where
  "withBonus targetColumn el sc =
     (if getCurrentColumn el = Some targetColumn then sc else fl (sc + 10))"

definition spec_score :: "string \<Rightarrow> column \<Rightarrow> element \<Rightarrow> rat" where
  "spec_score taskText targetColumn el =
     withBonus targetColumn el (spec_textScore (normalised taskText) (normalised (textOf el)))"

definition code_score :: "string \<Rightarrow> column \<Rightarrow> element \<Rightarrow> rat" where
  "code_score taskText targetColumn el =
     withBonus targetColumn el (code_textScore (normalised taskText) (normalised (textOf el)))"

text \<open>
  The candidates that remain, in board order, and the pick: the first of those whose
  score is the greatest.
\<close>

definition remaining :: "(element \<Rightarrow> rat) \<Rightarrow> element list \<Rightarrow> candidate list" where
  "remaining sc els =
     filter (\<lambda>c. 20 < score c)
       (map (\<lambda>el. \<lparr>task = el, score = sc el, currentColumn = getCurrentColumn el\<rparr>) els)"

definition firstBest :: "candidate list \<Rightarrow> candidate option" where
  "firstBest cs = find (\<lambda>c. score c = Max (score ` set cs)) cs"

definition c1_sticky :: element where
  "c1_sticky = \<lparr>el_id = ''task-7'', el_type = Sticky, el_x = 100, el_y = 180,
     el_text = Some ''Up to us'', el_color = Some ''yellow''\<rparr>"

subsection \<open>The placement in the specification's words\<close>









definition c9_sticky :: element where
  "c9_sticky = \<lparr>el_id = ''element-1'', el_type = Sticky, el_x = 100, el_y = 180,
     el_text = Some ''Fix login bug'', el_color = Some ''yellow''\<rparr>"

definition c9_node :: element where
  "c9_node = \<lparr>el_id = ''element-1'', el_type = FlowNode, el_x = 500, el_y = 300,
     el_text = None, el_color = None\<rparr>"

definition c9_board :: whiteboardData where
  "c9_board = \<lparr>elements = [c9_sticky, c9_node]\<rparr>"

subsection \<open>Boards on which two exact scores tie\<close>




definition r16_a :: element where
  "r16_a = \<lparr>el_id = ''task-a'', el_type = Sticky, el_x = 820, el_y = 180,
     el_text = Some ''aaa bbb ccc ddd eee zz zz zz zz'', el_color = Some ''green''\<rparr>"

definition r16_b :: element where
  "r16_b = \<lparr>el_id = ''task-b'', el_type = Sticky, el_x = 100, el_y = 180,
     el_text = Some ''ggg fff eee ddd ccc bbb aaa zz zz zz zz zz zz zz zz zz zz zz'',
     el_color = Some ''yellow''\<rparr>"

definition r16_board :: whiteboardData where
  "r16_board = \<lparr>elements = [r16_b, r16_a]\<rparr>"

section \<open>Tool-Call Dispatcher\<close>

subsection \<open>processToolCall\<close>

text \<open>
  The argument bag of a call, with the fields that \<open>get_whiteboard_info\<close> and
  \<open>move_task\<close> read. An absent bag is \<open>None\<close>; reading a field of it throws.
\<close>

record toolArgs =
  arg_query :: string
  arg_column :: "string option"
  arg_taskText :: string
  arg_targetColumn :: column
  arg_reasoning :: string

text \<open>
  The response objects the dispatcher builds, one constructor per object literal of the
  source, and the value of their \<open>success\<close> field.
\<close>

datatype response =
    InfoFound "element list"
  | MoveSucceeded string column
  | MoveFailed string column
  | UpdateSucceeded
  | JiraUnavailable
  | JiraReply bool string
  | UnknownTool string
  | ErrorResponse string

fun success :: "response \<Rightarrow> bool" where
  "success (InfoFound _) = True"
| "success (MoveSucceeded _ _) = True"
| "success (MoveFailed _ _) = False"
| "success UpdateSucceeded = True"
| "success JiraUnavailable = False"
| "success (JiraReply ok _) = ok"
| "success (UnknownTool _) = False"
| "success (ErrorResponse _) = False"

record toolResult =
  newData :: "whiteboardData option"
  response :: response

text \<open>
  The operations that \<open>processToolCall\<close> delegates to and that no statement below
  depends on are parameters. \<open>Inl\<close> is a thrown error with its message.
\<close>

record collaborators =
  isMCPAvailable :: bool
  processJiraToolCall :: "whiteboardData \<Rightarrow> string \<Rightarrow> toolArgs option \<Rightarrow> string + toolResult"
  getWhiteboardInfo :: "whiteboardData \<Rightarrow> string \<Rightarrow> string option \<Rightarrow> element list"
  processWhiteboardToolCall :: "whiteboardData \<Rightarrow> toolArgs option \<Rightarrow> string + whiteboardData"

definition jiraToolNames :: "string list" where
  "jiraToolNames = [''sync_jira_board'', ''update_jira_from_standup'',
                    ''get_team_workload'', ''create_standup_summary'']"

definition typeError :: string where
  "typeError = ''TypeError''"

definition actualTaskText :: "whiteboardData \<Rightarrow> toolArgs \<Rightarrow> string" where
  "actualTaskText moveResult a =
     (let targetX = (if arg_targetColumn a = Todo then 100
                     else if arg_targetColumn a = Inprogress then 460 else 820);
          movedTask = find (\<lambda>el. el_type el = Sticky \<and> \<bar>el_x el - targetX\<bar> < 50 \<and>
                        (case el_text el of None \<Rightarrow> False
                         | Some t \<Rightarrow> str_includes (toLowerCase t) (toLowerCase (arg_taskText a))))
                      (elements moveResult)
      in case movedTask of Some m \<Rightarrow> textOf m | None \<Rightarrow> arg_taskText a)"

definition processToolCall ::
  "collaborators \<Rightarrow> whiteboardData \<Rightarrow> string \<Rightarrow> toolArgs option \<Rightarrow> string + toolResult" where
  "processToolCall env currentData toolName toolArgs =
     (if toolName \<in> set jiraToolNames then
        (if \<not> isMCPAvailable env then Inr \<lparr>newData = None, response = JiraUnavailable\<rparr>
         else processJiraToolCall env currentData toolName toolArgs)
      else if toolName = ''get_whiteboard_info'' then
        (case toolArgs of None \<Rightarrow> Inl typeError
         | Some a \<Rightarrow> Inr \<lparr>newData = None,
             response = InfoFound (getWhiteboardInfo env currentData (arg_query a) (arg_column a))\<rparr>)
      else if toolName = ''move_task'' then
        (case toolArgs of None \<Rightarrow> Inl typeError
         | Some a \<Rightarrow>
            (case moveTaskByText currentData (arg_taskText a) (arg_targetColumn a) (arg_reasoning a) of
               NewData moveResult \<Rightarrow>
                 Inr \<lparr>newData = Some moveResult,
                      response = MoveSucceeded (actualTaskText moveResult a) (arg_targetColumn a)\<rparr>
             | SameData \<Rightarrow>
                 Inr \<lparr>newData = None,
                      response = MoveFailed (arg_taskText a) (arg_targetColumn a)\<rparr>))
      else if toolName = ''update_whiteboard'' then
        (case processWhiteboardToolCall env currentData toolArgs of
           Inl e \<Rightarrow> Inl e
         | Inr updatedData \<Rightarrow> Inr \<lparr>newData = Some updatedData, response = UpdateSucceeded\<rparr>)
      else Inr \<lparr>newData = None, response = UnknownTool toolName\<rparr>)"

subsection \<open>onToolCall (src/hooks/useGeminiLive.ts)\<close>

record functionCall =
  fc_name :: string
  fc_id :: string
  fc_args :: "toolArgs option"

record functionResponse =
  fr_name :: string
  fr_id :: string
  fr_response :: response

text \<open>
  What the handler acts on: the responses handed to \<open>sendToolResponse\<close>, one list per
  call of it, oldest first, and the board that \<open>getCurrentWhiteboardData\<close> returns.
\<close>

record session =
  sent :: "functionResponse list list"
  board :: whiteboardData

text \<open>
  The body of \<open>functionCalls.forEach\<close>. \<open>proc\<close> is the processing function the
  handler calls and whose result it reads at once; \<open>publish\<close> is the board after the
  external update handler has run on the call's arguments and the new data. A thrown
  error is answered by the \<open>catch\<close> block; \<open>sendToolResponse\<close> itself does not throw.
\<close>

definition handleCall ::
  "(whiteboardData \<Rightarrow> string \<Rightarrow> toolArgs option \<Rightarrow> string + toolResult) \<Rightarrow>
   (toolArgs \<Rightarrow> whiteboardData \<Rightarrow> whiteboardData \<Rightarrow> whiteboardData) \<Rightarrow>
   functionCall \<Rightarrow> session \<Rightarrow> session" where
  "handleCall proc publish call s =
     (if fc_name call = ''update_whiteboard'' \<or> fc_name call = ''get_whiteboard_info''
         \<or> fc_name call = ''move_task''
      then
        (case proc (board s) (fc_name call) (fc_args call) of
           Inr result \<Rightarrow>
             (let s1 = s\<lparr>sent := sent s @ [[\<lparr>fr_name = fc_name call, fr_id = fc_id call,
                                              fr_response = response result\<rparr>]]\<rparr>
              in case (newData result, fc_args call) of
                   (Some d, Some a) \<Rightarrow> s1\<lparr>board := publish a d (board s1)\<rparr>
                 | _ \<Rightarrow> s1)
         | Inl message \<Rightarrow>
             s\<lparr>sent := sent s @ [[\<lparr>fr_name = fc_name call, fr_id = fc_id call,
                                   fr_response = ErrorResponse message\<rparr>]]\<rparr>)
      else s)"

definition onToolCall ::
  "(whiteboardData \<Rightarrow> string \<Rightarrow> toolArgs option \<Rightarrow> string + toolResult) \<Rightarrow>
   (toolArgs \<Rightarrow> whiteboardData \<Rightarrow> whiteboardData \<Rightarrow> whiteboardData) \<Rightarrow>
   functionCall list option \<Rightarrow> session \<Rightarrow> session" where
  "onToolCall proc publish functionCalls s =
     (case functionCalls of None \<Rightarrow> s | Some calls \<Rightarrow> fold (handleCall proc publish) calls s)"

definition c4_call :: functionCall where
  "c4_call = \<lparr>fc_name = ''archive_task'', fc_id = ''call-1'', fc_args = None\<rparr>"

definition c2_args :: toolArgs where
  "c2_args = \<lparr>arg_query = '''', arg_column = None,
              arg_taskText = ''aaa bbb ccc ddd eee fff ggg'',
              arg_targetColumn = Done, arg_reasoning = ''finished''\<rparr>"

definition c2_env :: collaborators where
  "c2_env = \<lparr>isMCPAvailable = False,
             processJiraToolCall = (\<lambda>_ _ _. Inl ''unavailable''),
             getWhiteboardInfo = (\<lambda>_ _ _. []),
             processWhiteboardToolCall = (\<lambda>currentData _. Inr currentData)\<rparr>"

section \<open>Audio Recorder (AudioRecorder.start)\<close>

text \<open>
  The fields of the recorder that \<open>start\<close> writes, the number of promises created so
  far (a promise is identified by its number) and the number of \<open>getUserMedia\<close> calls
  made, which are the device acquisitions.
\<close>

record recorder =
  stream :: "nat option"
  isRecording :: bool
  starting :: "nat option"
  promises :: nat
  acquisitions :: nat

definition newRecorder :: recorder where
  "newRecorder = \<lparr>stream = None, isRecording = False, starting = None,
                   promises = 0, acquisitions = 0\<rparr>"

text \<open>
  A call of \<open>start()\<close> up to the point where it returns: without media devices it
  throws; otherwise the executor of the new promise runs at once up to its first
  \<open>await\<close>, which is the \<open>getUserMedia\<close> call, the promise is stored in
  \<open>starting\<close>, and it is the promise the caller gets. \<open>starting\<close> is not read.
\<close>

definition start :: "bool \<Rightarrow> recorder \<Rightarrow> string + (nat \<times> recorder)" where
  "start hasUserMedia r =
     (if \<not> hasUserMedia then Inl ''Could not request user media''
      else (let p = promises r
            in Inr (p, r\<lparr>starting := Some p, promises := p + 1,
                          acquisitions := acquisitions r + 1\<rparr>)))"

text \<open>Two calls of \<open>start()\<close>, the second issued while the first has not settled.\<close>

definition startTwice :: "bool \<Rightarrow> recorder \<Rightarrow> string + (nat \<times> nat \<times> recorder)" where
  "startTwice hasUserMedia r =
     (case start hasUserMedia r of
        Inl e \<Rightarrow> Inl e
      | Inr (p1, r1) \<Rightarrow>
          (case start hasUserMedia r1 of
             Inl e \<Rightarrow> Inl e
           | Inr (p2, r2) \<Rightarrow> Inr (p1, p2, r2)))"

section \<open>Base64 framing of outbound audio (src/lib/audio-utils.ts)\<close>

text \<open>
  \<open>window.btoa\<close> and \<open>window.atob\<close> are the platform's functions; they are modelled
  after their definition: the Base64 encoding with padding, and the forgiving decoding
  that removes ASCII white space, accepts missing padding and fails (\<open>None\<close>, where the
  platform throws) on any other input. A binary string is a \<open>string\<close>, each
  character one byte.
\<close>

definition b64chars :: string where
  "b64chars = ''ABCDEFGHIJKLMNOPQRSTUVWXYZabcdefghijklmnopqrstuvwxyz0123456789+/''"

definition b64char :: "nat \<Rightarrow> char" where
  "b64char n = b64chars ! n"

definition b64val :: "char \<Rightarrow> nat option" where
  "b64val c = map_of (zip b64chars [0..<64]) c"

text \<open>The sextets of a byte sequence, the last one filled up with zero bits.\<close>

fun sextets :: "nat list \<Rightarrow> nat list" where
  "sextets [] = []"
| "sextets [x] = [x div 4, (x mod 4) * 16]"
| "sextets [x, y] = [x div 4, (x mod 4) * 16 + y div 16, (y mod 16) * 4]"
| "sextets (x # y # z # rest) =
     [x div 4, (x mod 4) * 16 + y div 16, (y mod 16) * 4 + z div 64, z mod 64] @ sextets rest"

definition padding :: "nat \<Rightarrow> string" where
  "padding n = replicate ((3 - n mod 3) mod 3) CHR ''=''"

definition btoa :: "string \<Rightarrow> string" where
  "btoa binary = map b64char (sextets (map of_char binary)) @ padding (length binary)"

definition isAsciiWhitespace :: "char \<Rightarrow> bool" where
  "isAsciiWhitespace c = ((of_char c :: nat) \<in> {9, 10, 12, 13, 32})"

definition stripPadding :: "string \<Rightarrow> string" where
  "stripPadding d =
     (case rev d of
        c1 # c2 # r \<Rightarrow> if c1 = CHR ''='' \<and> c2 = CHR ''='' then rev r
                       else if c1 = CHR ''='' then rev (c2 # r) else d
      | [c1] \<Rightarrow> if c1 = CHR ''='' then [] else d
      | [] \<Rightarrow> d)"

text \<open>
  The bytes of a sextet sequence: 24 bits give three bytes; of 12 remaining bits the
  last four are dropped, of 18 the last two.
\<close>

fun unsextets :: "nat list \<Rightarrow> nat list" where
  "unsextets (a # b # c # d # rest) =
     [a * 4 + b div 16, (b mod 16) * 16 + c div 4, (c mod 4) * 64 + d] @ unsextets rest"
| "unsextets [a, b, c] = [a * 4 + b div 16, (b mod 16) * 16 + c div 4]"
| "unsextets [a, b] = [a * 4 + b div 16]"
| "unsextets _ = []"

definition atob :: "string \<Rightarrow> string option" where
  "atob data =
     (let d1 = filter (\<lambda>c. \<not> isAsciiWhitespace c) data;
          d2 = (if length d1 mod 4 = 0 then stripPadding d1 else d1)
      in if length d2 mod 4 = 1 then None
         else (case those (map b64val d2) of
                 None \<Rightarrow> None
               | Some sx \<Rightarrow> Some (map char_of (unsextets sx))))"

text \<open>
  The repository's two functions. The loops append \<open>String.fromCharCode(bytes[i])\<close> and
  store \<open>charCodeAt(i)\<close>, element by element.
\<close>

definition arrayBufferToBase64 :: "8 word list \<Rightarrow> string" where
  "arrayBufferToBase64 bytes =
     btoa (foldl (\<lambda>binary b. binary @ [char_of (unat b)]) [] bytes)"

definition base64ToArrayBuffer :: "string \<Rightarrow> 8 word list option" where
  "base64ToArrayBuffer base64 =
     (case atob base64 of
        None \<Rightarrow> None
      | Some binaryString \<Rightarrow> Some (map (\<lambda>c. word_of_nat (of_char c)) binaryString))"

section \<open>Proofs: Capture Framer\<close>

lemma div_carry: "(a::nat) div k + (a mod k + b) div k = (a + b) div k"
proof (cases "k = 0")
  case True
  then show ?thesis by simp
next
  case False
  have "(a div k * k + (a mod k + b)) div k = a div k + (a mod k + b) div k"
    using False by (rule div_mult_self3)
  moreover have "a div k * k + (a mod k + b) = a + b" by simp
  ultimately show ?thesis by simp
qed

lemma mod_carry: "((a::nat) mod k + b) mod k = (a + b) mod k"
  by (simp add: mod_add_left_eq)

lemma storeSample_step:
  assumes "framer_ok f"
  shows "framer_ok (storeSample v f)"
    and "bufferWriteIndex (storeSample v f) = (bufferWriteIndex f + 1) mod 2048"
    and "map byteLength (posted (storeSample v f)) =
         map byteLength (posted f) @ replicate ((bufferWriteIndex f + 1) div 2048) 4096"
proof -
  let ?i = "bufferWriteIndex f"
  from assms have len: "length (buffer f) = 2048" and lt: "?i < 2048"
    by (simp_all add: framer_ok_def)
  show "framer_ok (storeSample v f)"
    using len lt by (simp add: storeSample_def sendAndClearBuffer_def framer_ok_def Let_def)
  show "bufferWriteIndex (storeSample v f) = (?i + 1) mod 2048"
  proof (cases "?i + 1 = 2048")
    case True
    then show ?thesis using len
      by (simp add: storeSample_def sendAndClearBuffer_def Let_def)
  next
    case False
    with lt have "?i + 1 < 2048" by simp
    then show ?thesis using len
      by (simp add: storeSample_def sendAndClearBuffer_def Let_def)
  qed
  show "map byteLength (posted (storeSample v f)) =
         map byteLength (posted f) @ replicate ((?i + 1) div 2048) 4096"
  proof (cases "?i + 1 = 2048")
    case True
    then show ?thesis using len
      by (simp add: storeSample_def sendAndClearBuffer_def Let_def byteLength_def)
  next
    case False
    with lt have "?i + 1 < 2048" by simp
    then show ?thesis using len
      by (simp add: storeSample_def sendAndClearBuffer_def Let_def)
  qed
qed

lemma fold_storeSample:
  "framer_ok f \<Longrightarrow>
     framer_ok (fold storeSample vs f) \<and>
     bufferWriteIndex (fold storeSample vs f) = (bufferWriteIndex f + length vs) mod 2048 \<and>
     map byteLength (posted (fold storeSample vs f)) =
       map byteLength (posted f) @ replicate ((bufferWriteIndex f + length vs) div 2048) 4096"
proof (induction vs arbitrary: f)
  case Nil
  then show ?case by (simp add: framer_ok_def)
next
  case (Cons v vs)
  let ?g = "storeSample v f"
  let ?i = "bufferWriteIndex f"
  note st = storeSample_step [OF Cons.prems, of v]
  from Cons.IH [OF st(1)] have ih:
    "framer_ok (fold storeSample vs ?g)"
    "bufferWriteIndex (fold storeSample vs ?g) = (bufferWriteIndex ?g + length vs) mod 2048"
    "map byteLength (posted (fold storeSample vs ?g)) =
       map byteLength (posted ?g) @ replicate ((bufferWriteIndex ?g + length vs) div 2048) 4096"
    by simp_all
  have len: "?i + 1 + length vs = ?i + length (v # vs)" by simp
  have idx: "((?i + 1) mod 2048 + length vs) mod 2048 = (?i + length (v # vs)) mod 2048"
    unfolding mod_carry len ..
  have cnt: "(?i + 1) div 2048 + ((?i + 1) mod 2048 + length vs) div 2048
             = (?i + length (v # vs)) div 2048"
    unfolding div_carry len ..
  have "map byteLength (posted (fold storeSample (v # vs) f)) =
        map byteLength (posted f) @ replicate ((?i + 1) div 2048) 4096 @
          replicate (((?i + 1) mod 2048 + length vs) div 2048) 4096"
    using ih(3) st(2,3) by simp
  also have "\<dots> = map byteLength (posted f) @
          replicate ((?i + length (v # vs)) div 2048) 4096"
    unfolding replicate_add [symmetric] cnt ..
  finally have p: "map byteLength (posted (fold storeSample (v # vs) f)) =
        map byteLength (posted f) @ replicate ((?i + length (v # vs)) div 2048) 4096" .
  have i: "bufferWriteIndex (fold storeSample (v # vs) f) = (?i + length (v # vs)) mod 2048"
    using ih(2) st(2) idx by simp
  from ih(1) i p show ?case by simp
qed

lemma processChunk_step:
  assumes "framer_ok f"
  shows "framer_ok (processChunk vs f) \<and>
     bufferWriteIndex (processChunk vs f) = (bufferWriteIndex f + length vs) mod 2048 \<and>
     map byteLength (posted (processChunk vs f)) =
       map byteLength (posted f) @ replicate ((bufferWriteIndex f + length vs) div 2048) 4096"
proof -
  from fold_storeSample [OF assms, of vs] have ok: "framer_ok (fold storeSample vs f)" by simp
  then have "processChunk vs f = fold storeSample vs f"
    by (simp add: processChunk_def framer_ok_def Let_def)
  with fold_storeSample [OF assms, of vs] show ?thesis by simp
qed

lemma process_step:
  assumes "framer_ok f"
  shows "framer_ok (process inp f) \<and>
     bufferWriteIndex (process inp f) = (bufferWriteIndex f + samplesOf inp) mod 2048 \<and>
     map byteLength (posted (process inp f)) =
       map byteLength (posted f) @ replicate ((bufferWriteIndex f + samplesOf inp) div 2048) 4096"
proof (cases inp)
  case Nil
  with assms show ?thesis by (simp add: process_def samplesOf_def framer_ok_def)
next
  case (Cons c cs)
  with processChunk_step [OF assms, of c] show ?thesis
    by (simp add: process_def samplesOf_def)
qed

lemma fold_process:
  "framer_ok f \<Longrightarrow>
     framer_ok (fold process calls f) \<and>
     bufferWriteIndex (fold process calls f) = (bufferWriteIndex f + totalSamples calls) mod 2048 \<and>
     map byteLength (posted (fold process calls f)) =
       map byteLength (posted f) @
       replicate ((bufferWriteIndex f + totalSamples calls) div 2048) 4096"
proof (induction calls arbitrary: f)
  case Nil
  then show ?case by (simp add: framer_ok_def totalSamples_def)
next
  case (Cons inp calls)
  let ?g = "process inp f"
  let ?i = "bufferWriteIndex f"
  let ?n = "samplesOf inp"
  let ?m = "totalSamples calls"
  from process_step [OF Cons.prems, of inp] have st:
    "framer_ok ?g" "bufferWriteIndex ?g = (?i + ?n) mod 2048"
    "map byteLength (posted ?g) = map byteLength (posted f) @ replicate ((?i + ?n) div 2048) 4096"
    by simp_all
  from Cons.IH [OF st(1)] have ih:
    "framer_ok (fold process calls ?g)"
    "bufferWriteIndex (fold process calls ?g) = (bufferWriteIndex ?g + ?m) mod 2048"
    "map byteLength (posted (fold process calls ?g)) =
       map byteLength (posted ?g) @ replicate ((bufferWriteIndex ?g + ?m) div 2048) 4096"
    by simp_all
  have tot: "totalSamples (inp # calls) = ?n + ?m" by (simp add: totalSamples_def)
  have idx: "((?i + ?n) mod 2048 + ?m) mod 2048 = (?i + (?n + ?m)) mod 2048"
    unfolding mod_carry add.assoc ..
  have cnt: "(?i + ?n) div 2048 + ((?i + ?n) mod 2048 + ?m) div 2048 = (?i + (?n + ?m)) div 2048"
    unfolding div_carry add.assoc ..
  have "map byteLength (posted (fold process (inp # calls) f)) =
        map byteLength (posted f) @ replicate ((?i + ?n) div 2048) 4096 @
          replicate (((?i + ?n) mod 2048 + ?m) div 2048) 4096"
    using ih(3) st(2,3) by simp
  also have "\<dots> = map byteLength (posted f) @ replicate ((?i + (?n + ?m)) div 2048) 4096"
    unfolding replicate_add [symmetric] cnt ..
  finally have p: "map byteLength (posted (fold process (inp # calls) f)) =
        map byteLength (posted f) @ replicate ((?i + totalSamples (inp # calls)) div 2048) 4096"
    unfolding tot .
  have i: "bufferWriteIndex (fold process (inp # calls) f) =
           (?i + totalSamples (inp # calls)) mod 2048"
    using ih(2) st(2) idx tot by simp
  from ih(1) i p show ?case by simp
qed

text \<open>
  C5. Whatever sequence of \<open>process\<close> calls the framer receives from its initial state,
  it has posted exactly \<open>floor(total_samples / 2048)\<close> chunks, and every posted chunk is
  \<open>2048 * 2 = 4096\<close> bytes long, so no partially filled buffer is ever posted.
\<close>

theorem framer_full_chunks:
  "map byteLength (posted (capture calls)) = replicate (totalSamples calls div 2048) 4096"
proof -
  have "framer_ok newFramer" by (simp add: framer_ok_def newFramer_def)
  from fold_process [OF this, of calls] show ?thesis
    by (simp add: capture_def newFramer_def)
qed

section \<open>Proofs: sample conversion\<close>

lemma toInt16_below_one:
  assumes "- 1 \<le> v" and "v < 1"
  shows "sint (toInt16 (int16Value v)) = truncate_rat (v * 32768)"
proof -
  let ?k = "truncate_rat (v * 32768)"
  have lo: "- 32768 \<le> ?k"
    using assms(1) by (auto simp: truncate_rat_def le_floor_iff le_ceiling_iff)
  have hi: "?k < 32768"
    using assms(2) by (auto simp: truncate_rat_def floor_less_iff ceiling_less_iff)
  have "signed_take_bit 15 ?k = ?k"
    using lo hi by (intro signed_take_bit_int_eq_self) simp_all
  then show ?thesis
    unfolding toInt16_def int16Value_def by (simp add: sint_sbintrunc')
qed

text \<open>
  C7. The claim asks that every sample \<open>v\<close> of the closed interval \<open>[-1, 1]\<close> is stored
  as its linear scaling. At the endpoint \<open>v = 1\<close> the scaled value is \<open>32768\<close>, which
  is not a signed 16-bit integer: the first slot of the buffer then holds \<open>-32768\<close>.
  (Below the endpoint the stored sample is the truncated scaling, lemma
  \<open>toInt16_below_one\<close>.)
\<close>

theorem int16_store_at_one:
  "sint (buffer (storeSample 1 newFramer) ! 0) = - 32768
   \<and> truncate_rat (int16Value 1) = 32768"
  by (simp add: storeSample_def newFramer_def sendAndClearBuffer_def toInt16_def
      int16Value_def truncate_rat_def Let_def)

section \<open>Proofs: double arithmetic\<close>

lemma fl_zero: "fl 0 = 0"
  by (simp add: fl_def)

text \<open>
  \<open>fl q\<close> is a multiple of \<open>2^(e - 52)\<close>, where \<open>2^e \<le> \<bar>q\<bar> < 2^(e + 1)\<close>, with
  a multiplier of at most 53 bits, and it lies within half of \<open>2^(e - 52)\<close> of \<open>q\<close>:
  it is a binary64 value nearest to \<open>q\<close>.
\<close>

lemma pow2_powi: "pow2 e = 2 powi e"
  by (simp add: pow2_def power_int_def field_simps)

lemma pow2_pos: "0 < pow2 e"
  by (simp add: pow2_powi)

lemma pow2_add: "pow2 (a + b) = pow2 a * pow2 b"
  by (simp add: pow2_powi power_int_add)

lemma pow2_mono: "a \<le> b \<Longrightarrow> pow2 a \<le> pow2 b"
  by (simp add: pow2_powi power_int_increasing)

lemma roundHalfEven_near: "\<bar>of_int (roundHalfEven q) - q\<bar> \<le> 1 / 2"
proof -
  have "of_int \<lfloor>q\<rfloor> \<le> q" and "q < of_int \<lfloor>q\<rfloor> + 1" by linarith+
  then show ?thesis by (auto simp: roundHalfEven_def Let_def abs_le_iff)
qed

lemma exponentOf_bounds:
  assumes "q \<noteq> 0"
  shows "pow2 (exponentOf q) \<le> \<bar>q\<bar>" and "\<bar>q\<bar> < pow2 (exponentOf q + 1)"
proof -
  obtain a b where ab: "quotient_of \<bar>q\<bar> = (a, b)" by (cases "quotient_of \<bar>q\<bar>")
  then have b: "0 < b" and q: "\<bar>q\<bar> = of_int a / of_int b"
    by (simp_all add: quotient_of_denom_pos quotient_of_div)
  have a: "0 < a"
  proof -
    have "0 < \<bar>q\<bar>" using assms by simp
    then have "(0::rat) < of_int a / of_int b" by (simp only: q)
    then show ?thesis using b by (simp add: zero_less_divide_iff)
  qed
  let ?d = "bitlen a - bitlen b"
  from bitlen_bounds [OF a] have a1: "(2::int) ^ nat (bitlen a - 1) \<le> a" and a2: "a < 2 ^ nat (bitlen a)" by simp_all
  from bitlen_bounds [OF b] have b1: "(2::int) ^ nat (bitlen b - 1) \<le> b" and b2: "b < 2 ^ nat (bitlen b)" by simp_all
  have la: "1 \<le> bitlen a" using a by (metis bitlen_eq_zero_iff bitlen_nonneg int_one_le_iff_zero_less less_le not_le)
  have lb: "1 \<le> bitlen b" using b by (metis bitlen_eq_zero_iff bitlen_nonneg int_one_le_iff_zero_less less_le not_le)
  have A1: "pow2 (bitlen a - 1) \<le> of_int a"
  proof -
    have "(of_int ((2::int) ^ nat (bitlen a - 1)) :: rat) \<le> of_int a" using a1 by (simp only: of_int_le_iff)
    then show ?thesis using la by (simp add: pow2_def)
  qed
  have A2: "of_int a < pow2 (bitlen a)"
  proof -
    have "(of_int a :: rat) < of_int ((2::int) ^ nat (bitlen a))" using a2 by (simp only: of_int_less_iff)
    then show ?thesis using la by (simp add: pow2_def)
  qed
  have B1: "pow2 (bitlen b - 1) \<le> of_int b"
  proof -
    have "(of_int ((2::int) ^ nat (bitlen b - 1)) :: rat) \<le> of_int b" using b1 by (simp only: of_int_le_iff)
    then show ?thesis using lb by (simp add: pow2_def)
  qed
  have B2: "of_int b < pow2 (bitlen b)"
  proof -
    have "(of_int b :: rat) < of_int ((2::int) ^ nat (bitlen b))" using b2 by (simp only: of_int_less_iff)
    then show ?thesis using lb by (simp add: pow2_def)
  qed
  have bpos: "(0::rat) < of_int b" using b by simp
  have lo: "pow2 (?d - 1) \<le> \<bar>q\<bar>"
  proof -
    have "pow2 (?d - 1) * of_int b \<le> pow2 (?d - 1) * pow2 (bitlen b)"
      using B2 pow2_pos [of "?d - 1"] by (simp add: mult_left_mono)
    also have "\<dots> = pow2 (bitlen a - 1)" by (simp add: pow2_add [symmetric])
    also have "\<dots> \<le> of_int a" by (rule A1)
    finally show ?thesis using bpos by (simp add: q pos_le_divide_eq)
  qed
  have hi: "\<bar>q\<bar> < pow2 (?d + 1)"
  proof -
    have "of_int a < pow2 (bitlen a)" by (rule A2)
    also have "\<dots> = pow2 (?d + 1) * pow2 (bitlen b - 1)" by (simp add: pow2_add [symmetric])
    also have "\<dots> \<le> pow2 (?d + 1) * of_int b"
      using B1 pow2_pos [of "?d + 1"] by (simp add: mult_left_mono)
    finally show ?thesis using bpos by (simp add: q pos_divide_less_eq)
  qed
  have e: "exponentOf q = (if pow2 ?d \<le> \<bar>q\<bar> then ?d else ?d - 1)"
    by (simp add: exponentOf_def ab Let_def)
  show "pow2 (exponentOf q) \<le> \<bar>q\<bar>" using lo by (simp add: e)
  show "\<bar>q\<bar> < pow2 (exponentOf q + 1)" using hi by (auto simp: e not_le)
qed

lemma fl_error:
  assumes "q \<noteq> 0"
  shows "\<bar>fl q - q\<bar> \<le> pow2 (exponentOf q - 53)"
proof -
  let ?u = "pow2 (exponentOf q - 52)"
  have u: "0 < ?u" by (rule pow2_pos)
  have "fl q - q = (of_int (roundHalfEven (q / ?u)) - q / ?u) * ?u"
    using assms u by (simp add: fl_def Let_def field_simps)
  then have "\<bar>fl q - q\<bar> = \<bar>of_int (roundHalfEven (q / ?u)) - q / ?u\<bar> * ?u"
    using u by (simp add: abs_mult)
  also have "\<dots> \<le> 1 / 2 * ?u"
    using roundHalfEven_near [of "q / ?u"] u by (intro mult_right_mono) simp_all
  also have "\<dots> = pow2 (exponentOf q - 53)"
  proof -
    have "pow2 (exponentOf q - 52) = pow2 (exponentOf q - 53) * pow2 1"
      by (simp add: pow2_add [symmetric])
    then show ?thesis by (simp add: pow2_def)
  qed
  finally show ?thesis .
qed


lemma fl_mantissa:
  assumes "q \<noteq> 0"
  shows "fl q = of_int (roundHalfEven (q / pow2 (exponentOf q - 52))) * pow2 (exponentOf q - 52)"
    and "\<bar>roundHalfEven (q / pow2 (exponentOf q - 52))\<bar> \<le> 2 ^ 53"
proof -
  let ?u = "pow2 (exponentOf q - 52)"
  let ?m = "roundHalfEven (q / ?u)"
  have u: "0 < ?u" by (rule pow2_pos)
  show "fl q = of_int ?m * ?u" using assms by (simp add: fl_def Let_def)
  have "exponentOf q + 1 = (exponentOf q - 52) + 53" by simp
  then have "pow2 (exponentOf q + 1) = ?u * pow2 53" by (simp only: pow2_add)
  also have "pow2 53 = 2 ^ 53" by (simp add: pow2_def)
  finally have "\<bar>q\<bar> < ?u * 2 ^ 53" using exponentOf_bounds(2) [OF assms] by simp
  then have "\<bar>q / ?u\<bar> < 2 ^ 53" using u by (simp add: pos_divide_less_eq mult.commute)
  moreover have "\<bar>of_int ?m - q / ?u\<bar> \<le> 1 / 2" by (rule roundHalfEven_near)
  ultimately have "\<bar>(of_int ?m :: rat)\<bar> < 2 ^ 53 + 1" by linarith
  then have "(of_int \<bar>?m\<bar> :: rat) < of_int (2 ^ 53 + 1)" by simp
  then have "\<bar>?m\<bar> < 2 ^ 53 + 1" by (simp only: of_int_less_iff)
  then show "\<bar>?m\<bar> \<le> 2 ^ 53" by simp
qed

text \<open>
  Two well-known values: \<open>1/3\<close> is the binary64 number \<open>0x3FD5555555555555\<close> and
  \<open>1/10\<close> is \<open>0x3FB999999999999A\<close>.
\<close>

lemma fl_third: "fl (1 / 3) = 6004799503160661 / 2 ^ 54"
  by code_simp

lemma fl_tenth: "fl (1 / 10) = 7205759403792794 / 2 ^ 56"
  by code_simp

lemma fl_10: "fl 10 = 10"
  by code_simp

lemma fl_50: "fl 50 = 50"
  by code_simp

section \<open>Proofs: the payment gateway example\<close>

lemma c8_search_lower:
  "trim (toLowerCase ''payment gateway integration'') = ''payment gateway integration''"
  by code_simp

lemma c8_first_lower:
  "trim (toLowerCase ''Integrate payment gateway'') = ''integrate payment gateway''"
  by code_simp

lemma c8_second_lower:
  "trim (toLowerCase ''Write unit tests'') = ''write unit tests''"
  by code_simp

lemma c8_first_score:
  "textScore ''payment gateway integration'' ''integrate payment gateway'' = 40"
  by code_simp

lemma c8_second_score:
  "textScore ''payment gateway integration'' ''write unit tests'' = 0"
  by code_simp

text \<open>
  C8, as the code has it. On a board whose task stickies are "Integrate payment gateway"
  and "Write unit tests", neither in the target column, searching
  "payment gateway integration" selects the first sticky, and its score is exactly 50:
  two of the three search words match (40 of 60), plus the bonus of 10. The second
  sticky scores 10 and is discarded.
\<close>

theorem payment_gateway_selected:
  assumes "elements cd = [a, b]"
    and "el_type a = Sticky" and "el_y a < 650"
    and "el_text a = Some ''Integrate payment gateway''"
    and "getCurrentColumn a \<noteq> Some targetColumn"
    and "el_type b = Sticky" and "el_y b < 650"
    and "el_text b = Some ''Write unit tests''"
    and "getCurrentColumn b \<noteq> Some targetColumn"
  shows "bestCandidate cd ''payment gateway integration'' targetColumn
         = Some \<lparr>task = a, score = 50, currentColumn = getCurrentColumn a\<rparr>"
proof -
  have sa: "scoreCandidate ''payment gateway integration'' targetColumn a
            = \<lparr>task = a, score = 50, currentColumn = getCurrentColumn a\<rparr>"
    using assms(4,5)
    by (simp add: scoreCandidate_def c8_search_lower c8_first_lower c8_first_score fl_50
        Let_def)
  have sb: "score (scoreCandidate ''payment gateway integration'' targetColumn b) = 10"
    using assms(8,9)
    by (simp add: scoreCandidate_def c8_search_lower c8_second_lower c8_second_score fl_10
        Let_def)
  have "allStickyTasks cd = [a, b]"
    using assms(1,2,3,6,7) by (simp add: allStickyTasks_def)
  then have "candidatesWithScores cd ''payment gateway integration'' targetColumn
             = [\<lparr>task = a, score = 50, currentColumn = getCurrentColumn a\<rparr>]"
    using sa sb by (simp add: candidatesWithScores_def)
  then show ?thesis by (simp add: bestCandidate_def)
qed

theorem payment_gateway_selected_witness:
  "bestCandidate c8_board ''payment gateway integration'' Done
     = Some \<lparr>task = c8_first, score = 50, currentColumn = Some Todo\<rparr>"
  using payment_gateway_selected [of c8_board c8_first c8_second Done]
  by (simp add: c8_board_def c8_first_def c8_second_def getCurrentColumn_def)

text \<open>
  C8 as claimed fails: with the first sticky in the todo column, the second in progress
  and the target column done, the first sticky is the only candidate kept, and its
  score is not at least 70.
\<close>

theorem payment_gateway_score_below_70:
  "map task (candidatesWithScores c8_board ''payment gateway integration'' Done) = [c8_first]
   \<and> \<not> 70 \<le> score (hd (candidatesWithScores c8_board ''payment gateway integration'' Done))"
  by code_simp

section \<open>Proofs: scoring and selection\<close>

lemma str_includes_sublist: "str_includes s sub = sublist sub s"
  by (induction s) (simp_all add: sublist_Cons_right)

lemma wordsMatch_abs: "(\<lambda>v. sublist w v \<or> sublist v w) = wordsMatch w"
  by (simp add: fun_eq_iff wordsMatch_def)

lemma textScore_code: "textScore q t = code_textScore q t"
  by (simp add: textScore_def code_textScore_def searchWordsOf_def spec_words_def
      wordsMatch_abs str_includes_sublist fl_zero Let_def)

lemma normalised_Nil: "trim (toLowerCase []) = []"
  by (simp add: trim_def toLowerCase_def)

lemma scoreCandidate_code:
  "scoreCandidate taskText targetColumn el =
     \<lparr>task = el, score = code_score taskText targetColumn el,
      currentColumn = getCurrentColumn el\<rparr>"
  by (simp add: scoreCandidate_def code_score_def normalised_def textOf_def withBonus_def
      textScore_code normalised_Nil Let_def split: option.splits)

lemma candidatesWithScores_remaining:
  "candidatesWithScores cd taskText targetColumn =
     sort_key (\<lambda>c. - score c) (remaining (code_score taskText targetColumn) (allStickyTasks cd))"
proof -
  have "scoreCandidate taskText targetColumn =
        (\<lambda>el. \<lparr>task = el, score = code_score taskText targetColumn el,
                currentColumn = getCurrentColumn el\<rparr>)"
    by (rule ext) (rule scoreCandidate_code)
  then show ?thesis by (simp add: candidatesWithScores_def remaining_def)
qed

lemma find_filter_hd:
  "find P xs = (case filter P xs of [] \<Rightarrow> None | x # _ \<Rightarrow> Some x)"
  by (induction xs) simp_all

lemma hd_sort_key_first_min:
  assumes "xs \<noteq> []"
  shows "find (\<lambda>x. f x = Min (f ` set xs)) xs = Some (hd (sort_key f xs))"
proof -
  let ?ys = "sort_key f xs"
  from assms have ne: "?ys \<noteq> []" by (metis set_sort set_empty)
  then obtain y ys where ys: "?ys = y # ys" by (cases ?ys) auto
  have srt: "sorted (map f ?ys)" by simp
  have yin: "y \<in> set xs" using ys by (metis list.set_intros(1) set_sort)
  have "\<forall>z \<in> set xs. f y \<le> f z"
  proof
    fix z assume "z \<in> set xs"
    then have "z \<in> set (y # ys)" using ys by (metis set_sort)
    then show "f y \<le> f z" using srt ys by auto
  qed
  then have m: "Min (f ` set xs) = f y"
    using yin by (intro Min_eqI) auto
  have "filter (\<lambda>x. f x = f y) xs = filter (\<lambda>x. f x = f y) ?ys"
    by (simp add: sort_key_stable)
  also have "\<dots> = y # filter (\<lambda>x. f x = f y) ys" using ys by simp
  finally show ?thesis using m ys by (simp add: find_filter_hd)
qed

lemma Min_neg_score:
  assumes "cs \<noteq> []"
  shows "Min ((\<lambda>c. - score c) ` set cs) = - Max (score ` set (cs::candidate list))"
proof -
  have "Min (uminus ` (score ` set cs)) = - Max (score ` set cs)"
    using assms by (intro Min_eqI) (auto simp: Max_ge_iff intro!: rev_image_eqI [OF Max_in])
  then show ?thesis by (simp add: image_image)
qed

text \<open>
  C1, as the code has it. Every task sticky (a sticky with \<open>y < 650\<close>) is scored by
  \<open>code_score\<close>: 100 for equal normalised texts, 80 if the candidate contains the
  search phrase, 70 if the search phrase contains the candidate, otherwise the number
  of search words of more than two characters that match a word of the candidate,
  divided by the larger of the two word counts, times 60, where the candidate's words
  are all its white-space separated pieces whatever their length; plus 10 if the
  candidate's derived column is not the target. The division, the multiplication and
  the addition are those of double arithmetic, each rounded. Candidates scoring at
  most 20 are dropped, and the pick is the first remaining candidate, in board order,
  whose score, so computed, is the greatest.
\<close>

theorem move_task_selection:
  "bestCandidate cd taskText targetColumn =
     firstBest (remaining (code_score taskText targetColumn) (allStickyTasks cd))"
proof -
  let ?cs = "remaining (code_score taskText targetColumn) (allStickyTasks cd)"
  show ?thesis
  proof (cases "?cs = []")
    case True
    then show ?thesis
      by (simp add: bestCandidate_def candidatesWithScores_remaining firstBest_def)
  next
    case False
    then have "sort_key (\<lambda>c. - score c) ?cs \<noteq> []" by (metis set_sort set_empty)
    then have b: "bestCandidate cd taskText targetColumn
                  = Some (hd (sort_key (\<lambda>c. - score c) ?cs))"
      by (simp add: bestCandidate_def candidatesWithScores_remaining split: list.splits)
    have "find (\<lambda>c. - score c = Min ((\<lambda>c. - score c) ` set ?cs)) ?cs
          = Some (hd (sort_key (\<lambda>c. - score c) ?cs))"
      using False by (rule hd_sort_key_first_min)
    then have "firstBest ?cs = Some (hd (sort_key (\<lambda>c. - score c) ?cs))"
      by (simp add: firstBest_def Min_neg_score [OF False])
    with b show ?thesis by simp
  qed
qed

text \<open>
  C1 as claimed fails: the code does not drop the short words of the candidate's text.
  Searching "update docs" on a sticky "Up to us" outside the target column, the code
  matches "update" against the two-letter word "up" and scores 1/3 * 60 + 10 = 30, so
  the sticky is kept; with both texts tokenised into words of more than two characters
  the score is 10 and the sticky is discarded.
\<close>

theorem candidate_short_words_counterexample:
  "score (scoreCandidate ''update docs'' Done c1_sticky) = 30
   \<and> spec_score ''update docs'' Done c1_sticky = 10"
  by code_simp

section \<open>Proofs: the move\<close>

lemma moveTaskByText_best:
  "moveTaskByText cd taskText targetColumn reasoning =
     (case bestCandidate cd taskText targetColumn of
        None \<Rightarrow> SameData
      | Some best \<Rightarrow>
          if currentColumn best = Some targetColumn then SameData
          else NewData (cd\<lparr>elements :=
                 map (updateTask (task best) (kanbanColumns targetColumn)
                        (180 + of_nat (length (tasksInTargetColumn cd (task best)
                                                 (kanbanColumns targetColumn))) * 90)
                        (newColorOf targetColumn))
                     (elements cd)\<rparr>))"
  by (simp add: moveTaskByText_def bestCandidate_def generateElementPosition_def Let_def
      split: list.splits)


lemma bestCandidate_task:
  assumes "bestCandidate cd taskText targetColumn = Some best"
  shows "task best \<in> set (allStickyTasks cd)"
proof -
  from assms obtain cs where "candidatesWithScores cd taskText targetColumn = best # cs"
    by (auto simp: bestCandidate_def split: list.splits)
  then have "best \<in> set (candidatesWithScores cd taskText targetColumn)" by simp
  then have "best \<in> set (remaining (code_score taskText targetColumn) (allStickyTasks cd))"
    by (simp add: candidatesWithScores_remaining)
  then show ?thesis by (auto simp: remaining_def)
qed

text \<open>
  C2. If the winning candidate is already in the requested column, \<open>moveTaskByText\<close>
  returns the object it was given, so the snapshot is the input snapshot, and
  \<open>processToolCall\<close> returns no new data and the response with \<open>success: false\<close>
  that reports that the task could not be moved.
\<close>

theorem move_task_already_there:
  assumes "bestCandidate cd (arg_taskText a) (arg_targetColumn a) = Some best"
    and "currentColumn best = Some (arg_targetColumn a)"
  shows "moveTaskByText cd (arg_taskText a) (arg_targetColumn a) (arg_reasoning a) = SameData
    \<and> snapshotAfter cd
         (moveTaskByText cd (arg_taskText a) (arg_targetColumn a) (arg_reasoning a)) = cd
    \<and> processToolCall env cd ''move_task'' (Some a)
        = Inr \<lparr>newData = None, response = MoveFailed (arg_taskText a) (arg_targetColumn a)\<rparr>
    \<and> \<not> success (MoveFailed (arg_taskText a) (arg_targetColumn a))"
proof -
  have m: "moveTaskByText cd (arg_taskText a) (arg_targetColumn a) (arg_reasoning a) = SameData"
    using assms by (simp add: moveTaskByText_best)
  have "''move_task'' \<notin> set jiraToolNames" by (simp add: jiraToolNames_def)
  then have "processToolCall env cd ''move_task'' (Some a)
        = Inr \<lparr>newData = None, response = MoveFailed (arg_taskText a) (arg_targetColumn a)\<rparr>"
    using m by (simp add: processToolCall_def)
  with m show ?thesis by (simp add: snapshotAfter_def)
qed

lemma r16_best:
  "bestCandidate r16_board ''aaa bbb ccc ddd eee fff ggg'' Done
     = Some \<lparr>task = r16_a, score = 4691249611844267 / 2 ^ 47, currentColumn = Some Done\<rparr>"
  by code_simp

text \<open>
  The witness is the second tie board: the sticky already in the done column wins by
  rounding alone (33.333333333333336 against 33.33333333333333), and nothing is moved.
\<close>

theorem move_task_already_there_witness:
  "moveTaskByText r16_board ''aaa bbb ccc ddd eee fff ggg'' Done ''finished'' = SameData
   \<and> snapshotAfter r16_board
        (moveTaskByText r16_board ''aaa bbb ccc ddd eee fff ggg'' Done ''finished'')
       = r16_board
   \<and> processToolCall c2_env r16_board ''move_task'' (Some c2_args)
       = Inr \<lparr>newData = None,
              response = MoveFailed ''aaa bbb ccc ddd eee fff ggg'' Done\<rparr>"
proof -
  have b: "bestCandidate r16_board (arg_taskText c2_args) (arg_targetColumn c2_args)
           = Some \<lparr>task = r16_a, score = 4691249611844267 / 2 ^ 47,
                   currentColumn = Some Done\<rparr>"
    by (simp add: c2_args_def r16_best)
  have c: "currentColumn \<lparr>task = r16_a, score = 4691249611844267 / 2 ^ 47,
                          currentColumn = Some Done\<rparr>
           = Some (arg_targetColumn c2_args)"
    by (simp add: c2_args_def)
  from move_task_already_there [OF b c, of c2_env] show ?thesis
    by (simp add: c2_args_def snapshotAfter_def)
qed





section \<open>Proofs: what a move leaves alone\<close>

lemma same_id_same_element:
  assumes "distinct (map el_id xs)" and "a \<in> set xs" and "b \<in> set xs"
    and "el_id a = el_id b"
  shows "a = b"
  using assms by (auto simp: distinct_map inj_on_def)

text \<open>
  C9, for boards whose identifiers are pairwise distinct. The new snapshot has the
  elements of the old one in the same places, except for at most one place; the
  element that stood there was a sticky with \<open>y < 650\<close>. So no element of another
  type and no summary sticky (\<open>y \<ge> 650\<close>) is modified.
\<close>

theorem move_task_frame:
  assumes "distinct (map el_id (elements cd))"
  shows "length (elements (snapshotAfter cd (moveTaskByText cd taskText targetColumn reasoning)))
           = length (elements cd)
    \<and> (\<forall>i j. i < length (elements cd) \<and> j < length (elements cd)
          \<and> elements (snapshotAfter cd (moveTaskByText cd taskText targetColumn reasoning)) ! i
              \<noteq> elements cd ! i
          \<and> elements (snapshotAfter cd (moveTaskByText cd taskText targetColumn reasoning)) ! j
              \<noteq> elements cd ! j
          \<longrightarrow> i = j)
    \<and> (\<forall>i < length (elements cd).
          elements (snapshotAfter cd (moveTaskByText cd taskText targetColumn reasoning)) ! i
              \<noteq> elements cd ! i
          \<longrightarrow> el_type (elements cd ! i) = Sticky \<and> el_y (elements cd ! i) < 650)"
proof -
  let ?old = "elements cd"
  let ?new = "elements (snapshotAfter cd (moveTaskByText cd taskText targetColumn reasoning))"
  have dist: "distinct ?old" using assms by (simp add: distinct_map)
  show ?thesis
  proof (cases "moveTaskByText cd taskText targetColumn reasoning")
    case SameData
    then show ?thesis by (simp add: snapshotAfter_def)
  next
    case (NewData d)
    obtain best where best: "bestCandidate cd taskText targetColumn = Some best"
      using NewData
      by (cases "bestCandidate cd taskText targetColumn") (simp_all add: moveTaskByText_best)
    have nc: "currentColumn best \<noteq> Some targetColumn"
    proof
      assume "currentColumn best = Some targetColumn"
      with best have "moveTaskByText cd taskText targetColumn reasoning = SameData"
        by (simp add: moveTaskByText_best)
      with NewData show False by simp
    qed
    have d: "d = cd\<lparr>elements :=
                 map (updateTask (task best) (kanbanColumns targetColumn)
                        (180 + of_nat (length (tasksInTargetColumn cd (task best)
                                                 (kanbanColumns targetColumn))) * 90)
                        (newColorOf targetColumn))
                     (elements cd)\<rparr>"
      using NewData best nc by (simp add: moveTaskByText_best)
    let ?t = "task best"
    from bestCandidate_task [OF best] have tin: "?t \<in> set ?old"
      and tst: "el_type ?t = Sticky" and ty: "el_y ?t < 650"
      by (simp_all add: allStickyTasks_def)
    have len: "length ?new = length ?old"
      using NewData d by (simp add: snapshotAfter_def)
    have changed: "?old ! i = ?t" if "i < length ?old" and "?new ! i \<noteq> ?old ! i" for i
    proof -
      from that NewData d have "el_id (?old ! i) = el_id ?t"
        by (auto simp: snapshotAfter_def updateTask_def split: if_splits)
      moreover from that(1) have "?old ! i \<in> set ?old" by simp
      ultimately show ?thesis using same_id_same_element [OF assms _ tin] by blast
    qed
    have one: "i = j" if "i < length ?old" and "j < length ?old"
      and "?new ! i \<noteq> ?old ! i" and "?new ! j \<noteq> ?old ! j" for i j
    proof -
      have "?old ! i = ?old ! j"
        using changed [OF that(1,3)] changed [OF that(2,4)] by simp
      with dist that(1,2) show ?thesis by (simp add: nth_eq_iff_index_eq)
    qed
    have sticky: "el_type (?old ! i) = Sticky \<and> el_y (?old ! i) < 650"
      if "i < length ?old" and "?new ! i \<noteq> ?old ! i" for i
      using changed [OF that] tst ty by simp
    show ?thesis
    proof (intro conjI allI impI)
      show "length ?new = length ?old" by (rule len)
    next
      fix i j
      assume "i < length ?old \<and> j < length ?old \<and> ?new ! i \<noteq> ?old ! i
              \<and> ?new ! j \<noteq> ?old ! j"
      then show "i = j" using one by blast
    next
      fix i
      assume "i < length ?old" and "?new ! i \<noteq> ?old ! i"
      then show "el_type (?old ! i) = Sticky" using sticky by blast
    next
      fix i
      assume "i < length ?old" and "?new ! i \<noteq> ?old ! i"
      then show "el_y (?old ! i) < 650" using sticky by blast
    qed
  qed
qed

theorem move_task_frame_witness:
  "distinct (map el_id (elements c8_board))
   \<and> elements (snapshotAfter c8_board
        (moveTaskByText c8_board ''payment gateway integration'' Done '''')) ! 0
       \<noteq> elements c8_board ! 0
   \<and> el_type (elements c8_board ! 0) = Sticky \<and> el_y (elements c8_board ! 0) < 650"
proof -
  have d: "distinct (map el_id (elements c8_board))"
    by (simp add: c8_board_def c8_first_def c8_second_def)
  have ch: "elements (snapshotAfter c8_board
        (moveTaskByText c8_board ''payment gateway integration'' Done '''')) ! 0
       \<noteq> elements c8_board ! 0"
    by code_simp
  have l: "0 < length (elements c8_board)" by (simp add: c8_board_def)
  from move_task_frame [OF d, of "''payment gateway integration''" Done "''''"]
  have "\<forall>i < length (elements c8_board).
          elements (snapshotAfter c8_board
            (moveTaskByText c8_board ''payment gateway integration'' Done '''')) ! i
              \<noteq> elements c8_board ! i
          \<longrightarrow> el_type (elements c8_board ! i) = Sticky \<and> el_y (elements c8_board ! i) < 650"
    by (rule conjunct2 [THEN conjunct2])
  with l ch have "el_type (elements c8_board ! 0) = Sticky \<and> el_y (elements c8_board ! 0) < 650"
    by blast
  with d ch show ?thesis by blast
qed

text \<open>
  C9 as claimed, for every board, fails: nothing keeps identifiers distinct, and the
  update rewrites every element that carries the winner's identifier. On a board where
  a flow node shares the identifier of the winning sticky, both elements are rewritten.
\<close>

theorem move_task_shared_id_counterexample:
  "elements (snapshotAfter c9_board (moveTaskByText c9_board ''fix login bug'' Done ''''))
     = [c9_sticky\<lparr>el_x := 820, el_y := 180, el_color := Some ''green''\<rparr>,
        c9_node\<lparr>el_x := 820, el_y := 180, el_color := Some ''green''\<rparr>]
   \<and> c9_sticky\<lparr>el_x := 820, el_y := 180, el_color := Some ''green''\<rparr> \<noteq> c9_sticky
   \<and> c9_node\<lparr>el_x := 820, el_y := 180, el_color := Some ''green''\<rparr> \<noteq> c9_node
   \<and> el_type c9_node = FlowNode"
  by code_simp

section \<open>Proofs: the tool-call handler\<close>

lemma processToolCall_unknown:
  assumes "toolName \<notin> set jiraToolNames"
    and "toolName \<noteq> ''get_whiteboard_info''" and "toolName \<noteq> ''move_task''"
    and "toolName \<noteq> ''update_whiteboard''"
  shows "processToolCall env cd toolName args
         = Inr \<lparr>newData = None, response = UnknownTool toolName\<rparr>"
  using assms by (simp add: processToolCall_def)

lemma handleCall_sent:
  "length (sent (handleCall proc publish call s)) =
     length (sent s) +
     (if fc_name call = ''update_whiteboard'' \<or> fc_name call = ''get_whiteboard_info''
         \<or> fc_name call = ''move_task'' then 1 else 0)"
proof (cases "proc (board s) (fc_name call) (fc_args call)")
  case (Inl message)
  then show ?thesis by (simp add: handleCall_def)
next
  case (Inr result)
  then show ?thesis
    by (cases "newData result"; cases "fc_args call") (simp_all add: handleCall_def Let_def)
qed

text \<open>
  C4 at a batch holding one call of an unknown operation (\<open>archive_task\<close>): the handler
  sends nothing, whatever the processing function would have answered. The call gets
  no response, where the claim promises one with \<open>success: false\<close>.
\<close>

theorem unknown_call_gets_no_response:
  "sent (onToolCall proc publish (Some [c4_call]) s) = sent s"
  by (simp add: onToolCall_def handleCall_def c4_call_def)

section \<open>Proofs: the recorder\<close>

text \<open>
  C6, as the code has it. A second \<open>start()\<close> issued while the first has not settled
  does not wait for the first call's promise: it creates a promise of its own and
  calls \<open>getUserMedia\<close> again. After the two calls the device has been acquired twice
  more than before, and \<open>starting\<close> holds the second promise.
\<close>

theorem start_twice_acquires_twice:
  assumes "startTwice hasUserMedia r = Inr (p1, p2, r2)"
  shows "p1 \<noteq> p2 \<and> acquisitions r2 = acquisitions r + 2 \<and> starting r2 = Some p2"
  using assms
  by (auto simp: startTwice_def start_def Let_def split: if_splits)

theorem start_twice_acquires_twice_witness:
  "startTwice True newRecorder
     = Inr (0, 1, \<lparr>stream = None, isRecording = False, starting = Some 1,
                    promises = 2, acquisitions = 2\<rparr>)
   \<and> (0::nat) \<noteq> 1
   \<and> acquisitions \<lparr>stream = None, isRecording = False, starting = Some 1,
                    promises = 2, acquisitions = 2\<rparr> = acquisitions newRecorder + 2"
proof -
  have s: "startTwice True newRecorder
     = Inr (0, 1, \<lparr>stream = None, isRecording = False, starting = Some 1,
                    promises = 2, acquisitions = 2\<rparr>)"
    by (simp add: startTwice_def start_def newRecorder_def)
  from start_twice_acquires_twice [OF s] s show ?thesis by blast
qed

text \<open>
  C6 as claimed fails: on a fresh recorder, two calls of \<open>start()\<close> with no settlement
  in between return the two different promises 0 and 1 and leave two device
  acquisitions, not one.
\<close>

theorem start_twice_counterexample:
  "startTwice True newRecorder
     = Inr (0, 1, newRecorder\<lparr>starting := Some 1, promises := 2, acquisitions := 2\<rparr>)
   \<and> acquisitions (newRecorder\<lparr>starting := Some 1, promises := 2, acquisitions := 2\<rparr>) \<noteq> 1"
  by (simp add: startTwice_def start_def newRecorder_def)

section \<open>Proofs: Base64 round trip\<close>

lemma b64chars_length: "length b64chars = 64"
  by (simp add: b64chars_def)

lemma b64chars_distinct: "distinct b64chars"
  by (simp add: b64chars_def)

lemma b64val_b64char:
  assumes "n < 64"
  shows "b64val (b64char n) = Some n"
proof -
  have "map_of (zip b64chars [0..<64]) (b64chars ! n) = Some ([0..<64] ! n)"
    using assms by (intro map_of_zip_nth) (simp_all add: b64chars_length b64chars_distinct)
  then show ?thesis using assms by (simp add: b64val_def b64char_def)
qed

lemma b64char_in: "n < 64 \<Longrightarrow> b64char n \<in> set b64chars"
  by (simp add: b64char_def b64chars_length)

lemma b64chars_no_ws: "c \<in> set b64chars \<Longrightarrow> \<not> isAsciiWhitespace c"
  by (auto simp: b64chars_def isAsciiWhitespace_def)

lemma b64chars_no_pad: "c \<in> set b64chars \<Longrightarrow> c \<noteq> CHR ''=''"
  by (auto simp: b64chars_def)

lemma sextets_bound:
  "\<forall>x \<in> set xs. x < 256 \<Longrightarrow> \<forall>s \<in> set (sextets xs). s < 64"
  by (induction xs rule: sextets.induct) (auto simp: div_less_iff_less_mult)

lemma sextets_length:
  "length (sextets xs) = 4 * (length xs div 3) + (if length xs mod 3 = 0 then 0 else length xs mod 3 + 1)"
  by (induction xs rule: sextets.induct) auto

lemma unsextets_sextets:
  "\<forall>x \<in> set xs. x < 256 \<Longrightarrow> unsextets (sextets xs) = xs"
proof (induction xs rule: sextets.induct)
  case 1
  then show ?case by simp
next
  case (2 x)
  then show ?case by simp
next
  case (3 x y)
  then have "y div 16 < 16" by (simp add: div_less_iff_less_mult)
  then show ?case by simp
next
  case (4 x y z rest)
  then have "y div 16 < 16" and "z div 64 < 4" by (simp_all add: div_less_iff_less_mult)
  with 4 show ?case by simp
qed

lemma those_b64val:
  "\<forall>s \<in> set sx. s < 64 \<Longrightarrow> those (map b64val (map b64char sx)) = Some sx"
  by (induction sx) (simp_all add: b64val_b64char)

lemma padding_cases:
  "padding n = (if n mod 3 = 0 then [] else if n mod 3 = 1 then ''=='' else ''='')"
proof -
  have "n mod 3 = 0 \<or> n mod 3 = 1 \<or> n mod 3 = 2" by arith
  then show ?thesis by (auto simp: padding_def numeral_2_eq_2)
qed

lemma stripPadding_body:
  assumes "\<forall>c \<in> set body. c \<noteq> CHR ''=''"
  shows "stripPadding body = body"
    and "stripPadding (body @ ''='') = body"
    and "stripPadding (body @ ''=='') = body"
proof -
  show "stripPadding body = body"
  proof (cases "rev body")
    case Nil
    then show ?thesis by (simp add: stripPadding_def)
  next
    case (Cons c1 r)
    then have "c1 \<in> set body" by (metis list.set_intros(1) set_rev)
    with assms have "c1 \<noteq> CHR ''=''" by blast
    with Cons show ?thesis by (cases r) (simp_all add: stripPadding_def)
  qed
  show "stripPadding (body @ ''='') = body"
  proof (cases "rev body")
    case Nil
    then show ?thesis by (simp add: stripPadding_def)
  next
    case (Cons c2 r)
    then have "c2 \<in> set body" by (metis list.set_intros(1) set_rev)
    with assms have "c2 \<noteq> CHR ''=''" by blast
    moreover from Cons have "body = rev r @ [c2]" by (metis rev.simps(2) rev_rev_ident)
    ultimately show ?thesis by (simp add: stripPadding_def)
  qed
  show "stripPadding (body @ ''=='') = body"
    by (simp add: stripPadding_def)
qed

lemma btoa_chars:
  assumes "c \<in> set (map b64char (sextets (map of_char binary)))"
  shows "c \<in> set b64chars"
proof -
  have "\<forall>x \<in> set (map of_char binary). x < (256::nat)" by auto
  then have "\<forall>s \<in> set (sextets (map of_char binary)). s < 64" by (rule sextets_bound)
  with assms show ?thesis by (auto intro: b64char_in)
qed

lemma atob_btoa: "atob (btoa binary) = Some binary"
proof -
  let ?xs = "map of_char binary :: nat list"
  let ?sx = "sextets ?xs"
  let ?body = "map b64char ?sx"
  let ?n = "length binary"
  have bytes: "\<forall>x \<in> set ?xs. x < 256" by auto
  have sx: "\<forall>s \<in> set ?sx. s < 64" using bytes by (rule sextets_bound)
  have body_pad: "\<forall>c \<in> set ?body. c \<noteq> CHR ''=''"
    using btoa_chars [of _ binary] b64chars_no_pad by blast
  have body_ws: "\<forall>c \<in> set ?body. \<not> isAsciiWhitespace c"
    using btoa_chars [of _ binary] b64chars_no_ws by blast
  have pad_ws: "\<forall>c \<in> set (padding ?n). \<not> isAsciiWhitespace c"
    by (simp add: padding_cases isAsciiWhitespace_def)
  have d1: "filter (\<lambda>c. \<not> isAsciiWhitespace c) (btoa binary) = btoa binary"
    using body_ws pad_ws by (simp add: btoa_def filter_id_conv)
  have lensx: "length ?sx = 4 * (?n div 3) + (if ?n mod 3 = 0 then 0 else ?n mod 3 + 1)"
    by (simp add: sextets_length)
  have cases3: "?n mod 3 = 0 \<or> ?n mod 3 = 1 \<or> ?n mod 3 = 2" by arith
  have len4: "length (btoa binary) mod 4 = 0"
    using cases3 lensx by (auto simp: btoa_def padding_cases)
  have strip: "stripPadding (btoa binary) = ?body"
    using cases3 stripPadding_body [OF body_pad] by (auto simp: btoa_def padding_cases)
  have not1: "length ?body mod 4 \<noteq> 1"
    using cases3 lensx by auto
  have dec: "those (map b64val ?body) = Some ?sx"
    using sx by (rule those_b64val)
  have restored: "map char_of (unsextets ?sx) = binary"
    using unsextets_sextets [OF bytes] by (simp add: map_idI)
  show ?thesis
    unfolding atob_def d1 Let_def using len4 strip not1 dec restored by simp
qed

lemma binary_of_bytes:
  "foldl (\<lambda>binary b. binary @ [f b]) acc bytes = acc @ map f bytes"
  by (induction bytes arbitrary: acc) simp_all

lemma byte_of_char: "word_of_nat (unat (b :: 8 word) mod 256) = b"
proof -
  have "unat b < 2 ^ LENGTH(8)" by (rule unsigned_less)
  then have "unat b < 256" by simp
  then show ?thesis by simp
qed

text \<open>
  C10. Decoding the encoding of a byte buffer succeeds and gives back the same bytes.
\<close>

theorem base64_round_trip:
  "base64ToArrayBuffer (arrayBufferToBase64 bytes) = Some bytes"
  by (simp add: base64ToArrayBuffer_def arrayBufferToBase64_def atob_btoa
      binary_of_bytes [where acc = "[]", simplified] byte_of_char map_idI o_def)

end
